theory Spec2Isabelle
  imports Main
begin

section \<open>Python string operations used by the inliner\<close>

text \<open>
  Documents are Python \<open>str\<close> values. They are modelled as \<open>string\<close>, a list of
  characters with code points below 256; every character the program tests for is ASCII.
  \<open>BS\<close> is the backslash and \<open>NL\<close> the line feed.
\<close>

abbreviation (input) BS :: char where
  "BS \<equiv> CHR 0x5C"

abbreviation (input) NL :: char where
  "NL \<equiv> CHR 0x0A"

text \<open>\<open>str.isspace\<close> on one character (also the class \<open>\s\<close> of \<open>re\<close>):
  code points 9 to 13, 28 to 32, 0x85 and 0xA0.\<close>

definition isspace :: "char \<Rightarrow> bool" where
  "isspace c = (c \<in> set [CHR 0x09, CHR 0x0A, CHR 0x0B, CHR 0x0C, CHR 0x0D,
                          CHR 0x1C, CHR 0x1D, CHR 0x1E, CHR 0x1F, CHR 0x20,
                          CHR 0x85, CHR 0xA0])"

text \<open>\<open>s.strip()\<close>\<close>

definition strip :: "string \<Rightarrow> string" where
  "strip s = rev (dropWhile isspace (rev (dropWhile isspace s)))"

text \<open>\<open>s.startswith(d)\<close> and \<open>s.endswith(d)\<close>\<close>

definition startswith :: "string \<Rightarrow> string \<Rightarrow> bool" where
  "startswith s d = (take (length d) s = d)"

definition endswith :: "string \<Rightarrow> string \<Rightarrow> bool" where
  "endswith s d = (length d \<le> length s \<and> drop (length s - length d) s = d)"

text \<open>Both by recursion, for evaluation.\<close>

lemma startswith_code [code]:
  "startswith s [] = True"
  "startswith [] (d # ds) = False"
  "startswith (c # cs) (d # ds) = (c = d \<and> startswith cs ds)"
  by (simp_all add: startswith_def)

text \<open>\<open>s.split('\n')\<close>: never empty, one more element than there are line feeds.\<close>

fun split_nl :: "string \<Rightarrow> string list" where
  "split_nl [] = [[]]"
| "split_nl (c # cs) =
     (if c = NL then [] # split_nl cs
      else (case split_nl cs of
              [] \<Rightarrow> [[c]]
            | l # ls \<Rightarrow> (c # l) # ls))"

text \<open>\<open>'\n'.join(ls)\<close>\<close>

fun join_nl :: "string list \<Rightarrow> string" where
  "join_nl [] = []"
| "join_nl [l] = l"
| "join_nl (l # ls) = l @ NL # join_nl ls"

text \<open>\<open>s.find(sub)\<close>: the lowest index of an occurrence, or \<open>-1\<close>.\<close>

fun find_str :: "string \<Rightarrow> string \<Rightarrow> int" where
  "find_str [] sub = (if sub = [] then 0 else - 1)"
| "find_str (c # cs) sub =
     (if startswith (c # cs) sub then 0
      else (let r = find_str cs sub in if r < 0 then - 1 else r + 1))"

text \<open>\<open>sub in s\<close>\<close>

definition contains :: "string \<Rightarrow> string \<Rightarrow> bool" where
  "contains s sub = (0 \<le> find_str s sub)"

text \<open>\<open>s.count(sub)\<close>: the number of non-overlapping occurrences, found left to right.
  The first argument counts the characters of the last occurrence still to be skipped.\<close>

fun count_from :: "nat \<Rightarrow> string \<Rightarrow> string \<Rightarrow> int" where
  "count_from k [] sub = (if sub = [] \<and> k = 0 then 1 else 0)"
| "count_from k (c # cs) sub =
     (if 0 < k then count_from (k - 1) cs sub
      else if startswith (c # cs) sub then 1 + count_from (length sub - 1) cs sub
      else count_from 0 cs sub)"

definition count_str :: "string \<Rightarrow> string \<Rightarrow> int" where
  "count_str s sub = count_from 0 s sub"

section \<open>The inliner's constants\<close>

text \<open>\<open>self.math_environments\<close>, set once in \<open>__init__\<close> and never changed.\<close>

definition math_environments :: "string list" where
  "math_environments =
     [''equation'', ''equation*'', ''align'', ''align*'', ''gather'', ''gather*'',
      ''multline'', ''multline*'', ''flalign'', ''flalign*'', ''eqnarray'', ''eqnarray*'',
      ''split'', ''aligned'', ''gathered'', ''cases'', ''matrix'', ''pmatrix'',
      ''bmatrix'', ''Bmatrix'', ''vmatrix'', ''Vmatrix'', ''smallmatrix'',
      ''subequations'', ''math'', ''displaymath'', ''array'']"

text \<open>\<open>self.max_depth\<close>, set once in \<open>__init__\<close> and never changed.\<close>

definition max_depth :: int where
  "max_depth = 10"

section \<open>The character-level scanner \<open>is_in_math_mode\<close>\<close>

record math_state =
  in_math :: bool
  in_display_math :: bool
  in_double_dollar :: bool
  math_env_stack :: "string list"

definition init_math_state :: math_state where
  "init_math_state =
     \<lparr>in_math = False, in_display_math = False, in_double_dollar = False,
      math_env_stack = []\<rparr>"

text \<open>
  \<open>re.match(kw + r'\{([^}]+)\}', s)\<close> for a literal keyword \<open>kw\<close>: the keyword, an opening
  brace, the longest run of characters other than the closing brace (not empty), and a
  closing brace. The result is group 1 and the length of the whole match.
\<close>

definition match_braced :: "string \<Rightarrow> string \<Rightarrow> (string \<times> nat) option" where
  "match_braced kw s =
     (if startswith s (kw @ ''{'') then
        (let rest = drop (length kw + 1) s;
             name = takeWhile (\<lambda>c. c \<noteq> CHR ''}'') rest
         in if name \<noteq> [] \<and> length name < length rest
            then Some (name, length kw + 1 + length name + 1)
            else None)
      else None)"

text \<open>The effect of a recognised \<open>\end{NAME}\<close> on the state (also used line by line).\<close>

definition pop_env :: "math_state \<Rightarrow> math_state" where
  "pop_env st =
     (let st1 = st\<lparr>math_env_stack := butlast (math_env_stack st)\<rparr>
      in if math_env_stack st1 = [] \<and> \<not> in_display_math st1 \<and> \<not> in_double_dollar st1
         then st1\<lparr>in_math := False\<rparr> else st1)"

text \<open>\<open>text_before[i:i+len(kw)] == kw\<close>\<close>

definition looking_at :: "string \<Rightarrow> nat \<Rightarrow> string \<Rightarrow> bool" where
  "looking_at tb i kw = (take (length kw) (drop i tb) = kw)"

lemma looking_at_code [code]: "looking_at tb i kw = startswith (drop i tb) kw"
  by (simp add: looking_at_def startswith_def)

text \<open>The branch for \<open>\begin\<close>: the next index and the next state.\<close>

definition scan_begin :: "string \<Rightarrow> nat \<Rightarrow> math_state \<Rightarrow> nat \<times> math_state" where
  "scan_begin tb i st =
     (case match_braced (BS # ''begin'') (drop i tb) of
        Some (env_name, n) \<Rightarrow>
          (i + (n - 1) + 1,
           if env_name \<in> set math_environments
           then st\<lparr>in_math := True, math_env_stack := math_env_stack st @ [env_name]\<rparr>
           else st)
      | None \<Rightarrow> (i + 1, st))"

text \<open>The branch for \<open>\end\<close>.\<close>

definition scan_end :: "string \<Rightarrow> nat \<Rightarrow> math_state \<Rightarrow> nat \<times> math_state" where
  "scan_end tb i st =
     (case match_braced (BS # ''end'') (drop i tb) of
        Some (env_name, n) \<Rightarrow>
          (i + (n - 1) + 1,
           if math_env_stack st \<noteq> [] \<and> env_name \<in> set math_environments
           then pop_env st else st)
      | None \<Rightarrow> (i + 1, st))"

text \<open>The branch for a backslash that is not the last character of \<open>text_before\<close>.\<close>

definition scan_command :: "string \<Rightarrow> nat \<Rightarrow> math_state \<Rightarrow> nat \<times> math_state" where
  "scan_command tb i st =
     (let next_char = tb ! (i + 1) in
      if next_char = CHR ''['' then
        (i + 2, st\<lparr>in_display_math := True, in_math := True\<rparr>)
      else if next_char = CHR '']'' \<and> in_display_math st then
        (i + 2, st\<lparr>in_display_math := False, in_math := False\<rparr>)
      else if next_char = CHR ''('' then
        (i + 2, st\<lparr>in_math := True\<rparr>)
      else if next_char = CHR '')'' \<and> in_math st \<and> \<not> in_display_math st
              \<and> \<not> in_double_dollar st then
        (i + 2, st\<lparr>in_math := False\<rparr>)
      else if looking_at tb i (BS # ''begin'') then scan_begin tb i st
      else if looking_at tb i (BS # ''end'') then scan_end tb i st
      else (i + 1, st))"

text \<open>The branch for a dollar sign.\<close>

definition scan_dollar :: "string \<Rightarrow> nat \<Rightarrow> math_state \<Rightarrow> nat \<times> math_state" where
  "scan_dollar tb i st =
     (if i + 1 < length tb \<and> tb ! (i + 1) = CHR ''$'' then
        (i + 2,
         if in_double_dollar st
         then st\<lparr>in_double_dollar := False, in_math := False\<rparr>
         else st\<lparr>in_double_dollar := True, in_math := True\<rparr>)
      else if 0 < i \<and> tb ! (i - 1) = BS then (i + 1, st)
      else (i + 1, st\<lparr>in_math := \<not> in_math st\<rparr>))"

text \<open>One iteration of the \<open>while\<close> loop at index \<open>i\<close> of \<open>text_before\<close>: the next
  index and the next state.\<close>

definition scan_step :: "string \<Rightarrow> nat \<Rightarrow> math_state \<Rightarrow> nat \<times> math_state" where
  "scan_step tb i st =
     (let char = tb ! i in
      if char = BS then
        (if i + 1 < length tb then scan_command tb i st else (i + 1, st))
      else if char = CHR ''$'' then scan_dollar tb i st
      else (i + 1, st))"

lemma scan_begin_advances: "i < fst (scan_begin tb i st)"
  by (simp add: scan_begin_def split: option.split)

lemma scan_end_advances: "i < fst (scan_end tb i st)"
  by (simp add: scan_end_def split: option.split)

lemma scan_command_advances: "i < fst (scan_command tb i st)"
  by (simp add: scan_command_def Let_def scan_begin_advances scan_end_advances)

lemma scan_dollar_advances: "i < fst (scan_dollar tb i st)"
  by (simp add: scan_dollar_def)

lemma scan_step_advances: "i < fst (scan_step tb i st)"
  by (simp add: scan_step_def Let_def scan_command_advances scan_dollar_advances)

text \<open>The \<open>while i < len(text_before)\<close> loop.\<close>

function scan :: "string \<Rightarrow> nat \<Rightarrow> math_state \<Rightarrow> math_state" where
  "scan tb i st =
     (if i < length tb
      then scan tb (fst (scan_step tb i st)) (snd (scan_step tb i st))
      else st)"
  by pat_completeness auto
termination
proof (relation "measure (\<lambda>(tb, i, st). length tb - i)")
  show "wf (measure (\<lambda>(tb, i, st). length tb - i))"
    by simp
next
  fix tb :: string and i :: nat and st :: math_state
  assume "i < length tb"
  moreover have "i < fst (scan_step tb i st)"
    by (rule scan_step_advances)
  ultimately show "((tb, fst (scan_step tb i st), snd (scan_step tb i st)), (tb, i, st))
        \<in> measure (\<lambda>(tb, i, st). length tb - i)"
    by (simp add: case_prod_beta diff_less_mono2)
qed

declare scan.simps [simp del]

text \<open>The value returned: any of the four trackers is active.\<close>

definition any_math_mode :: "math_state \<Rightarrow> bool" where
  "any_math_mode st =
     (in_math st \<or> in_display_math st \<or> in_double_dollar st \<or> math_env_stack st \<noteq> [])"

text \<open>\<open>is_in_math_mode(text, position)\<close>; \<open>position\<close> is a match's start, never negative.\<close>

definition is_in_math_mode :: "string \<Rightarrow> nat \<Rightarrow> bool" where
  "is_in_math_mode text position = any_math_mode (scan (take position text) 0 init_math_state)"

text \<open>The states the loop goes through, each with the index it is met at.\<close>

function scan_trace :: "string \<Rightarrow> nat \<Rightarrow> math_state \<Rightarrow> (nat \<times> math_state) list" where
  "scan_trace tb i st =
     (if i < length tb
      then (i, st) # scan_trace tb (fst (scan_step tb i st)) (snd (scan_step tb i st))
      else [(i, st)])"
  by pat_completeness auto
termination
proof (relation "measure (\<lambda>(tb, i, st). length tb - i)")
  show "wf (measure (\<lambda>(tb, i, st). length tb - i))"
    by simp
next
  fix tb :: string and i :: nat and st :: math_state
  assume "i < length tb"
  moreover have "i < fst (scan_step tb i st)"
    by (rule scan_step_advances)
  ultimately show "((tb, fst (scan_step tb i st), snd (scan_step tb i st)), (tb, i, st))
        \<in> measure (\<lambda>(tb, i, st). length tb - i)"
    by (simp add: case_prod_beta diff_less_mono2)
qed

declare scan_trace.simps [simp del]

section \<open>The comment writer\<close>

definition math_delimiters :: "string list" where
  "math_delimiters = [''$$'', [BS, CHR ''[''], [BS, CHR '']''], ''$'',
                      [BS, CHR ''(''], [BS, CHR '')'']]"

text \<open>\<open>safe_add_math_comments(content, file_path)\<close>; \<open>filename\<close> is \<open>file_path.name\<close>.\<close>

definition safe_add_math_comments :: "string \<Rightarrow> string \<Rightarrow> string" where
  "safe_add_math_comments content filename =
     (let content_stripped = strip content;
          starts_with_delimiter = list_ex (startswith content_stripped) math_delimiters;
          ends_with_delimiter = list_ex (endswith content_stripped) math_delimiters
      in if length content_stripped < 10 then
           (''% Inline: '' @ filename) @ [NL] @ content @ [NL] @ (''% End: '' @ filename) @ [NL]
         else if starts_with_delimiter \<or> ends_with_delimiter then
           (let lines = split_nl content in
            if 2 \<le> length lines then
              (let begin_comment = ''% Begin: '' @ filename;
                   end_comment = ''% End: '' @ filename @ [NL]
               in join_nl ([hd lines, begin_comment] @ butlast (tl lines)
                           @ [end_comment, last lines]))
            else
              (''% Begin: '' @ filename) @ [NL] @ content @ [NL] @ (''% End: '' @ filename) @ [NL])
         else
           (''% Begin: '' @ filename) @ [NL] @ content @ [NL] @ (''% End: '' @ filename) @ [NL])"

text \<open>\<open>add_inclusion_comments(content, file_path, in_math_mode)\<close>\<close>

definition add_inclusion_comments :: "string \<Rightarrow> string \<Rightarrow> bool \<Rightarrow> string" where
  "add_inclusion_comments content filename in_math_mode =
     (if in_math_mode then safe_add_math_comments content filename
      else (let begin_comment = ''% --- Begin included file: '' @ filename @ '' ---'' @ [NL];
                end_comment = ''% --- End included file: '' @ filename @ '' ---'' @ [NL]
            in begin_comment @ content @ end_comment))"

section \<open>The line-level pass \<open>remove_blank_lines_in_math\<close>\<close>

text \<open>The check for \<open>\[\<close> on one line.\<close>

definition line_display_open :: "math_state \<Rightarrow> string \<Rightarrow> math_state" where
  "line_display_open st line =
     (if contains line [BS, CHR ''[''] then
        (let bracket_pos = find_str line [BS, CHR ''['']; 
             close_bracket_pos = find_str line [BS, CHR '']'']
         in if \<not> in_display_math st \<and> (close_bracket_pos = - 1 \<or> close_bracket_pos < bracket_pos)
            then st\<lparr>in_display_math := True, in_math := True\<rparr>
            else st)
      else st)"

text \<open>The check for \<open>\]\<close> on one line.\<close>

definition line_display_close :: "math_state \<Rightarrow> string \<Rightarrow> math_state" where
  "line_display_close st line =
     (if contains line [BS, CHR '']''] \<and> in_display_math st then
        (let bracket_pos = find_str line [BS, CHR '']''];
             open_bracket_pos = find_str line [BS, CHR ''['']
         in if open_bracket_pos = - 1 \<or> open_bracket_pos < bracket_pos
            then (if \<not> in_double_dollar st \<and> math_env_stack st = []
                  then st\<lparr>in_display_math := False, in_math := False\<rparr>
                  else st\<lparr>in_display_math := False\<rparr>)
            else st)
      else st)"

text \<open>The check for \<open>$$\<close> on one line.\<close>

definition line_double_dollar :: "math_state \<Rightarrow> string \<Rightarrow> math_state" where
  "line_double_dollar st line =
     (let dollar_count = count_str line ''$$'' - count_str line [BS, CHR ''$'', BS, CHR ''$'']
      in if 0 < dollar_count then
           (if \<not> in_double_dollar st then st\<lparr>in_double_dollar := True, in_math := True\<rparr>
            else if \<not> in_display_math st \<and> math_env_stack st = []
                 then st\<lparr>in_double_dollar := False, in_math := False\<rparr>
                 else st\<lparr>in_double_dollar := False\<rparr>)
         else st)"

text \<open>The parity check for single dollars; \<open>%\<close> of Python and \<open>mod\<close> on \<open>int\<close> agree
  for the divisor 2, also on a negative count.\<close>

definition line_single_dollar :: "math_state \<Rightarrow> string \<Rightarrow> math_state" where
  "line_single_dollar st line =
     (let single_dollar_count =
            count_str line ''$'' - 2 * count_str line ''$$'' - count_str line [BS, CHR ''$'']
      in if single_dollar_count mod 2 = 1 then st\<lparr>in_math := \<not> in_math st\<rparr> else st)"

text \<open>The checks for \<open>\(\<close> and \<open>\)\<close>. The source's literal for the closing token,
  \<open>'\\\\)'\<close>, is two backslashes and a parenthesis.\<close>

definition line_paren :: "math_state \<Rightarrow> string \<Rightarrow> math_state" where
  "line_paren st line =
     (let st1 = (if contains line [BS, CHR ''(''] \<and> \<not> contains line [BS, BS, CHR '')'']
                 then st\<lparr>in_math := True\<rparr> else st)
      in if contains line [BS, BS, CHR '')''] \<and> in_math st1 \<and> \<not> in_display_math st1
            \<and> \<not> in_double_dollar st1
         then st1\<lparr>in_math := False\<rparr> else st1)"

text \<open>\<open>re.finditer(kw + r'\{([^}]+)\}', line)\<close>: group 1 of every match, left to right,
  matches not overlapping. The first argument counts the characters of the last match
  still to be skipped.\<close>

fun find_braced :: "nat \<Rightarrow> string \<Rightarrow> string \<Rightarrow> string list" where
  "find_braced k kw [] = []"
| "find_braced k kw (c # cs) =
     (if 0 < k then find_braced (k - 1) kw cs
      else (case match_braced kw (c # cs) of
              Some (name, n) \<Rightarrow> name # find_braced (n - 1) kw cs
            | None \<Rightarrow> find_braced 0 kw cs))"

text \<open>The two \<open>for\<close> loops over the \<open>\begin\<close> and the \<open>\end\<close> matches of one line.\<close>

definition push_env :: "math_state \<Rightarrow> string \<Rightarrow> math_state" where
  "push_env st env_name =
     (if env_name \<in> set math_environments
      then st\<lparr>math_env_stack := math_env_stack st @ [env_name], in_math := True\<rparr>
      else st)"

definition close_env :: "math_state \<Rightarrow> string \<Rightarrow> math_state" where
  "close_env st env_name =
     (if math_env_stack st \<noteq> [] \<and> env_name \<in> set math_environments
      then pop_env st else st)"

definition line_begins :: "math_state \<Rightarrow> string \<Rightarrow> math_state" where
  "line_begins st line = foldl push_env st (find_braced 0 (BS # ''begin'') line)"

definition line_ends :: "math_state \<Rightarrow> string \<Rightarrow> math_state" where
  "line_ends st line = foldl close_env st (find_braced 0 (BS # ''end'') line)"

text \<open>The state after all the checks of one loop iteration, in the order of the source.\<close>

definition line_step :: "math_state \<Rightarrow> string \<Rightarrow> math_state" where
  "line_step st line =
     line_ends (line_begins (line_paren (line_single_dollar (line_double_dollar
       (line_display_close (line_display_open st line) line) line) line) line) line) line"

text \<open>The \<open>while\<close> loop over the lines: the lines appended to \<open>result\<close>.\<close>

fun strip_lines :: "math_state \<Rightarrow> string list \<Rightarrow> string list" where
  "strip_lines st [] = []"
| "strip_lines st (line # lines) =
     (let line_stripped = strip line;
          st' = line_step st line
      in if any_math_mode st' \<and> line_stripped = []
         then strip_lines st' lines
         else line # strip_lines st' lines)"

definition remove_blank_lines_in_math :: "string \<Rightarrow> string" where
  "remove_blank_lines_in_math content =
     join_nl (strip_lines init_math_state (split_nl content))"


section \<open>Transclusion directives\<close>

text \<open>
  The pattern of \<open>resolve_input_commands\<close> is
  \<^verbatim>\<open>\\(input|include)\s*(\[.*?\])?\s*\{([^}]+)\}\<close>.
  A match is recorded with its start, its end and group 3; group 0 is the slice of the
  content between start and end. Groups 1 and 2 are read by the callback and not used.
\<close>

record directive =
  m_start :: nat
  m_end :: nat
  m_arg :: string

text \<open>\<open>match.group(0)\<close>\<close>

definition group0 :: "string \<Rightarrow> directive \<Rightarrow> string" where
  "group0 content m = take (m_end m - m_start m) (drop (m_start m) content)"

text \<open>The greedy \<open>\s*\<close> from index \<open>i\<close>: the index after the run of white space.\<close>

definition skip_space :: "string \<Rightarrow> nat \<Rightarrow> nat" where
  "skip_space s i = i + length (takeWhile isspace (drop i s))"

text \<open>\<open>\{([^}]+)\}\<close> at index \<open>i\<close>: the end of the match and group 3.\<close>

definition match_arg :: "string \<Rightarrow> nat \<Rightarrow> (nat \<times> string) option" where
  "match_arg s i =
     (if i < length s \<and> s ! i = CHR ''{'' then
        (let name = takeWhile (\<lambda>c. c \<noteq> CHR ''}'') (drop (i + 1) s)
         in if name \<noteq> [] \<and> i + 1 + length name < length s
            then Some (i + 1 + length name + 1, name)
            else None)
      else None)"

text \<open>\<open>\s*\{([^}]+)\}\<close> at index \<open>i\<close>. A shorter run of white space leaves a white-space
  character where the brace is needed, so only the longest run can match.\<close>

definition match_tail :: "string \<Rightarrow> nat \<Rightarrow> (nat \<times> string) option" where
  "match_tail s i = match_arg s (skip_space s i)"

lemma match_arg_end: "match_arg s i = Some (e, a) \<Longrightarrow> i < e"
  by (auto simp: match_arg_def Let_def split: if_splits)

lemma match_tail_end: "match_tail s i = Some (e, a) \<Longrightarrow> i < e"
  using match_arg_end [of s "skip_space s i" e a]
  by (simp add: match_tail_def skip_space_def)

text \<open>
  The rest of the optional group after its opening bracket, \<open>.*?\]\<close>, followed by the
  tail, from index \<open>q\<close>: the lazy star first tries to close the group at \<open>q\<close> and
  consumes the character at \<open>q\<close>, unless it is a line feed, when the tail does not match
  there.
\<close>

function match_options :: "string \<Rightarrow> nat \<Rightarrow> (nat \<times> string) option" where
  "match_options s q =
     (if q < length s then
        (if s ! q = CHR '']'' then
           (case match_tail s (q + 1) of
              Some r \<Rightarrow> Some r
            | None \<Rightarrow> match_options s (q + 1))
         else if s ! q = NL then None
         else match_options s (q + 1))
      else None)"
  by pat_completeness auto
termination
  by (relation "measure (\<lambda>(s, q). length s - q)") auto

declare match_options.simps [simp del]

lemma match_options_end: "match_options s q = Some (e, a) \<Longrightarrow> q < e"
proof (induction s q rule: match_options.induct)
  case (1 s q)
  note unfold = match_options.simps [of s q]
  show ?case
  proof (cases "q < length s")
    case False
    with "1.prems" unfold show ?thesis by simp
  next
    case inb: True
    show ?thesis
    proof (cases "s ! q = CHR '']''")
      case True
      show ?thesis
      proof (cases "match_tail s (q + 1)")
        case None
        with inb True "1.prems" unfold have "match_options s (q + 1) = Some (e, a)" by simp
        with "1.IH"(1) [OF inb True None] show ?thesis by simp
      next
        case (Some r)
        with inb True "1.prems" unfold have "match_tail s (q + 1) = Some (e, a)" by simp
        from match_tail_end [OF this] show ?thesis by simp
      qed
    next
      case nb: False
      show ?thesis
      proof (cases "s ! q = NL")
        case True
        with inb nb "1.prems" unfold show ?thesis by simp
      next
        case False
        with inb nb "1.prems" unfold have "match_options s (q + 1) = Some (e, a)" by simp
        with "1.IH"(2) [OF inb nb False] show ?thesis by simp
      qed
    qed
  qed
qed

text \<open>The alternation \<open>\\(input|include)\<close> at index \<open>i\<close>: the index after the keyword.\<close>

definition match_keyword :: "string \<Rightarrow> nat \<Rightarrow> nat option" where
  "match_keyword s i =
     (if looking_at s i (BS # ''input'') then Some (i + 6)
      else if looking_at s i (BS # ''include'') then Some (i + 8)
      else None)"

text \<open>
  The whole pattern at index \<open>i\<close>. After the keyword and the white space the optional
  group is tried first; without it the brace is needed at the same index.
\<close>

definition match_directive_at :: "string \<Rightarrow> nat \<Rightarrow> (nat \<times> string) option" where
  "match_directive_at s i =
     (case match_keyword s i of
        None \<Rightarrow> None
      | Some j \<Rightarrow>
          (let p = skip_space s j in
           if p < length s \<and> s ! p = CHR ''['' then
             (case match_options s (p + 1) of
                Some r \<Rightarrow> Some r
              | None \<Rightarrow> match_arg s p)
           else match_arg s p))"

lemma match_directive_at_end:
  assumes "match_directive_at s i = Some (e, a)"
  shows "i < e"
proof -
  from assms obtain j where j: "match_keyword s i = Some j"
    by (cases "match_keyword s i") (simp_all add: match_directive_at_def)
  then have ij: "i < j"
    by (auto simp: match_keyword_def split: if_splits)
  define p where "p = skip_space s j"
  have jp: "j \<le> p"
    by (simp add: p_def skip_space_def)
  from assms j
  have eq: "(if p < length s \<and> s ! p = CHR ''[''
             then (case match_options s (p + 1) of Some r \<Rightarrow> Some r | None \<Rightarrow> match_arg s p)
             else match_arg s p) = Some (e, a)"
    unfolding p_def by (simp add: match_directive_at_def Let_def)
  have "p < e"
  proof (cases "match_arg s p = Some (e, a)")
    case True
    then show ?thesis by (rule match_arg_end)
  next
    case False
    with eq have "match_options s (p + 1) = Some (e, a)"
      by (cases "match_options s (p + 1)") (simp_all split: if_splits)
    from match_options_end [OF this] show ?thesis by simp
  qed
  with ij jp show ?thesis by simp
qed

text \<open>The matches \<open>re.sub\<close> finds from index \<open>i\<close> on: the leftmost match first, the search
  going on at its end.\<close>

function find_directives :: "string \<Rightarrow> nat \<Rightarrow> directive list" where
  "find_directives content i =
     (if i < length content then
        (case match_directive_at content i of
           Some (e, a) \<Rightarrow> \<lparr>m_start = i, m_end = e, m_arg = a\<rparr> # find_directives content e
         | None \<Rightarrow> find_directives content (i + 1))
      else [])"
  by pat_completeness auto
termination
proof (relation "measure (\<lambda>(content, i). length content - i)")
  show "wf (measure (\<lambda>(content, i). length content - i))"
    by simp
next
  fix content :: string and i :: nat and x2 :: "nat \<times> string" and x y
  assume "i < length content" and "match_directive_at content i = Some x2" and "(x, y) = x2"
  then have "i < x"
    using match_directive_at_end [of content i x y] by simp
  with \<open>i < length content\<close>
  show "((content, x), (content, i)) \<in> measure (\<lambda>(content, i). length content - i)"
    by simp
next
  fix content :: string and i :: nat
  assume "i < length content"
  then show "((content, i + 1), (content, i)) \<in> measure (\<lambda>(content, i). length content - i)"
    by simp
qed

declare find_directives.simps [simp del]

text \<open>The string \<open>re.sub\<close> returns: the content from index \<open>pos\<close> on, with each match
  replaced by its replacement.\<close>

fun splice :: "string \<Rightarrow> nat \<Rightarrow> directive list \<Rightarrow> string list \<Rightarrow> string" where
  "splice content pos (m # ms) (r # rs) =
     take (m_start m - pos) (drop pos content) @ r @ splice content (m_end m) ms rs"
| "splice content pos ms rs = drop pos content"

section \<open>The file system\<close>

text \<open>
  Paths, their operations and the files are the environment of the program. They are a
  parameter of the model: a record of the \<open>pathlib\<close> operations the inliner calls, over
  any type of paths, whose equality is the equality of \<open>Path\<close> objects. \<open>exists\<close> is a
  total test; \<open>open(path, encoding=...).read()\<close> returns the text or raises.
\<close>

datatype py_exception = UnicodeDecodeError string | OSError string

datatype encoding = UTF8 | Latin1

record 'p file_system =
  path_join :: "'p \<Rightarrow> string \<Rightarrow> 'p"
  path_with_suffix :: "'p \<Rightarrow> string \<Rightarrow> 'p"
  path_name :: "'p \<Rightarrow> string"
  path_parent :: "'p \<Rightarrow> 'p"
  path_str :: "'p \<Rightarrow> string"
  path_exists :: "'p \<Rightarrow> bool"
  open_read :: "'p \<Rightarrow> encoding \<Rightarrow> py_exception + string"

text \<open>\<open>str(e)\<close>\<close>

fun exception_str :: "py_exception \<Rightarrow> string" where
  "exception_str (UnicodeDecodeError msg) = msg"
| "exception_str (OSError msg) = msg"

text \<open>\<open>read_file(file_path)\<close>: UTF-8 first, Latin-1 when that raises \<open>UnicodeDecodeError\<close>;
  any other exception, and any exception of the second attempt, goes to the caller.\<close>

definition read_file :: "'p file_system \<Rightarrow> 'p \<Rightarrow> py_exception + string" where
  "read_file fs file_path =
     (case open_read fs file_path UTF8 of
        Inr s \<Rightarrow> Inr s
      | Inl (UnicodeDecodeError msg) \<Rightarrow> open_read fs file_path Latin1
      | Inl (OSError msg) \<Rightarrow> Inl (OSError msg))"

section \<open>The inliner's state and \<open>resolve_input_commands\<close>\<close>

text \<open>The lines \<open>resolve_input_commands\<close> prints, each with the values it formats.\<close>

datatype 'p message =
    WarnNotFound string
  | WarnCircular 'p
  | Inlining 'p bool
  | ErrorProcessing 'p py_exception

text \<open>The fields of a \<open>LatexInliner\<close> that change, the main file, and the standard output.\<close>

record 'p inliner =
  main_file :: 'p
  processed_files :: "'p set"
  current_depth :: int
  printed :: "'p message list"

definition new_inliner :: "'p \<Rightarrow> 'p inliner" where
  "new_inliner main =
     \<lparr>main_file = main, processed_files = {}, current_depth = 0, printed = []\<rparr>"

definition print :: "'p message \<Rightarrow> 'p inliner \<Rightarrow> 'p inliner" where
  "print msg st = st\<lparr>printed := printed st @ [msg]\<rparr>"

text \<open>The path a directive's file is found at: \<open>file_path\<close> when it exists, else the first
  of \<open>possible_paths\<close> that exists, else nothing (the \<open>else\<close> of the \<open>for\<close> loop).\<close>

definition locate :: "'p file_system \<Rightarrow> 'p \<Rightarrow> string \<Rightarrow> 'p \<Rightarrow> 'p option" where
  "locate fs main file_arg file_path =
     (if path_exists fs file_path then Some file_path
      else List.find (path_exists fs)
             [file_path,
              path_with_suffix fs file_path ''.tex'',
              path_join fs (path_parent fs main) file_arg,
              path_join fs (path_parent fs main) (path_name fs file_path)])"

text \<open>\<open>file_arg\<close> after \<open>strip\<close> and the extension check.\<close>

definition file_arg_of :: "directive \<Rightarrow> string" where
  "file_arg_of m =
     (let file_arg = strip (m_arg m)
      in if \<not> endswith file_arg ''.tex'' then file_arg @ ''.tex'' else file_arg)"

text \<open>What \<open>replace_command\<close> returns for a circular include and for a failed read.\<close>

definition circular_comment :: "bool \<Rightarrow> string \<Rightarrow> string" where
  "circular_comment in_math_mode g0 =
     (if in_math_mode then ''% Circular include prevented: '' @ g0
      else [NL] @ ''% Circular include prevented: '' @ g0 @ [NL])"

definition error_comment :: "'p file_system \<Rightarrow> bool \<Rightarrow> 'p \<Rightarrow> py_exception \<Rightarrow> string \<Rightarrow> string" where
  "error_comment fs in_math_mode file_path e g0 =
     (let error_msg = ''% Error including '' @ path_str fs file_path @ '': '' @ exception_str e
      in if in_math_mode then error_msg @ [NL] @ g0
         else [NL] @ error_msg @ [NL] @ g0 @ [NL])"

text \<open>
  The callback \<open>replace_command(match)\<close>, with the state it reads and changes. Its first
  argument stands for the recursive call of \<open>resolve_input_commands\<close>, which returns
  nothing when the fuel of the model is used up.
\<close>

definition replace_command ::
  "(string \<Rightarrow> 'p \<Rightarrow> 'p inliner \<Rightarrow> ('p inliner \<times> string) option) \<Rightarrow> 'p file_system \<Rightarrow>
   string \<Rightarrow> 'p \<Rightarrow> directive \<Rightarrow> 'p inliner \<Rightarrow> ('p inliner \<times> string) option" where
  "replace_command resolve fs content current_dir m st =
     (let match_start = m_start m;
          in_math_mode = is_in_math_mode content match_start;
          file_arg = file_arg_of m
      in case locate fs (main_file st) file_arg (path_join fs current_dir file_arg) of
           None \<Rightarrow> Some (print (WarnNotFound file_arg) st, group0 content m)
         | Some file_path \<Rightarrow>
             if file_path \<in> processed_files st then
               Some (print (WarnCircular file_path) st,
                     circular_comment in_math_mode (group0 content m))
             else
               (let st1 = print (Inlining file_path in_math_mode)
                            (st\<lparr>processed_files := insert file_path (processed_files st)\<rparr>)
                in case read_file fs file_path of
                     Inl e \<Rightarrow>
                       Some (print (ErrorProcessing file_path e) st1,
                             error_comment fs in_math_mode file_path e (group0 content m))
                   | Inr file_content \<Rightarrow>
                       (case resolve (if in_math_mode then strip file_content else file_content)
                               (path_parent fs file_path) st1 of
                          None \<Rightarrow> None
                        | Some (st2, resolved_content) \<Rightarrow>
                            Some (st2, add_inclusion_comments resolved_content
                                         (path_name fs file_path) in_math_mode))))"

text \<open>\<open>re.sub\<close> calls the callback on every match, left to right: the replacements.\<close>

fun sub_all ::
  "(directive \<Rightarrow> 's \<Rightarrow> ('s \<times> string) option) \<Rightarrow> directive list \<Rightarrow> 's \<Rightarrow>
   ('s \<times> string list) option" where
  "sub_all f [] st = Some (st, [])"
| "sub_all f (m # ms) st =
     (case f m st of
        None \<Rightarrow> None
      | Some (st1, r) \<Rightarrow>
          (case sub_all f ms st1 of
             None \<Rightarrow> None
           | Some (st2, rs) \<Rightarrow> Some (st2, r # rs)))"

text \<open>
  \<open>resolve_input_commands(content, current_dir)\<close>. The first argument is fuel: the number
  of nested calls the model may make; the result is \<open>None\<close> only when it is used up.
\<close>

primrec resolve_input_commands ::
  "nat \<Rightarrow> 'p file_system \<Rightarrow> string \<Rightarrow> 'p \<Rightarrow> 'p inliner \<Rightarrow> ('p inliner \<times> string) option" where
  "resolve_input_commands 0 fs content current_dir st = None"
| "resolve_input_commands (Suc fuel) fs content current_dir st =
     (if max_depth < current_depth st then Some (st, content)
      else
        (case sub_all (replace_command (resolve_input_commands fuel fs) fs content current_dir)
                (find_directives content 0)
                (st\<lparr>current_depth := current_depth st + 1\<rparr>) of
           None \<Rightarrow> None
         | Some (st', rs) \<Rightarrow>
             Some (st'\<lparr>current_depth := current_depth st' - 1\<rparr>,
                   splice content 0 (find_directives content 0) rs)))"

text \<open>
  \<open>inline_latex()\<close>: the state at the end and the content written to the output file,
  or no content when the method returns \<open>False\<close>. The outer \<open>None\<close> is used-up fuel.
\<close>

definition inline_latex ::
  "nat \<Rightarrow> 'p file_system \<Rightarrow> 'p inliner \<Rightarrow> ('p inliner \<times> string option) option" where
  "inline_latex fuel fs st =
     (if \<not> path_exists fs (main_file st) then Some (st, None)
      else
        (case read_file fs (main_file st) of
           Inl e \<Rightarrow> Some (st, None)
         | Inr main_content \<Rightarrow>
             (case resolve_input_commands fuel fs main_content (path_parent fs (main_file st))
                     (st\<lparr>processed_files := insert (main_file st) (processed_files st)\<rparr>) of
                None \<Rightarrow> None
              | Some (st', inlined_content) \<Rightarrow>
                  Some (st', Some (remove_blank_lines_in_math inlined_content)))))"

text \<open>The paths announced by \<open>Inlining: ...\<close> lines, in order.\<close>

fun inlined_paths :: "'p message list \<Rightarrow> 'p list" where
  "inlined_paths [] = []"
| "inlined_paths (Inlining p b # msgs) = p # inlined_paths msgs"
| "inlined_paths (msg # msgs) = inlined_paths msgs"

section \<open>A small POSIX file system for the examples\<close>

text \<open>
  A \<open>PurePosixPath\<close> is its root flag and its parts: \<open>Path(s)\<close> drops empty parts and
  single dots and keeps double dots. The examples use a file table keyed by the parts of
  a path below the working directory, where a double dot leaves the directory entered
  last (no symbolic links).
\<close>

type_synonym posix_path = "bool \<times> string list"

fun split_slash :: "string \<Rightarrow> string list" where
  "split_slash [] = [[]]"
| "split_slash (c # cs) =
     (if c = CHR ''/'' then [] # split_slash cs
      else (case split_slash cs of
              [] \<Rightarrow> [[c]]
            | l # ls \<Rightarrow> (c # l) # ls))"

definition posix_parts :: "string \<Rightarrow> string list" where
  "posix_parts s = filter (\<lambda>part. part \<noteq> [] \<and> part \<noteq> ''.'') (split_slash s)"

definition posix :: "string \<Rightarrow> posix_path" where
  "posix s = (startswith s ''/'', posix_parts s)"

definition posix_join :: "posix_path \<Rightarrow> string \<Rightarrow> posix_path" where
  "posix_join d arg =
     (if startswith arg ''/'' then posix arg else (fst d, snd d @ posix_parts arg))"

definition posix_name :: "posix_path \<Rightarrow> string" where
  "posix_name p = (if snd p = [] then [] else last (snd p))"

definition posix_parent :: "posix_path \<Rightarrow> posix_path" where
  "posix_parent p = (fst p, butlast (snd p))"

definition posix_suffix :: "string \<Rightarrow> string" where
  "posix_suffix name =
     (let ext = rev (takeWhile (\<lambda>c. c \<noteq> CHR ''.'') (rev name))
      in if CHR ''.'' \<in> set name \<and> ext \<noteq> [] \<and> length ext + 1 < length name
         then CHR ''.'' # ext else [])"

definition posix_with_suffix :: "posix_path \<Rightarrow> string \<Rightarrow> posix_path" where
  "posix_with_suffix p suffix =
     (let name = posix_name p
      in (fst p, butlast (snd p)
                 @ [take (length name - length (posix_suffix name)) name @ suffix]))"

fun join_slash :: "string list \<Rightarrow> string" where
  "join_slash [] = []"
| "join_slash [l] = l"
| "join_slash (l # ls) = l @ CHR ''/'' # join_slash ls"

definition posix_str :: "posix_path \<Rightarrow> string" where
  "posix_str p =
     (if fst p then CHR ''/'' # join_slash (snd p)
      else if snd p = [] then ''.'' else join_slash (snd p))"

definition posix_normal :: "string list \<Rightarrow> string list" where
  "posix_normal parts =
     foldl (\<lambda>acc part. if part = ''..'' then butlast acc else acc @ [part]) [] parts"

definition posix_fs ::
  "(string list \<times> (py_exception + string)) list \<Rightarrow> posix_path file_system" where
  "posix_fs files =
     \<lparr>path_join = posix_join,
      path_with_suffix = posix_with_suffix,
      path_name = posix_name,
      path_parent = posix_parent,
      path_str = posix_str,
      path_exists = (\<lambda>p. map_of files (posix_normal (snd p)) \<noteq> None),
      open_read = (\<lambda>p enc. case map_of files (posix_normal (snd p)) of
                              None \<Rightarrow> Inl (OSError ''No such file or directory'')
                            | Some r \<Rightarrow> r)\<rparr>"

section \<open>Documents without math delimiters\<close>



section \<open>Example projects\<close>



text \<open>\<open>main.tex\<close> includes \<open>a\<close> and \<open>b\<close>, and each of them includes \<open>c\<close>.\<close>

definition diamond_fs :: "posix_path file_system" where
  "diamond_fs = posix_fs
     [([''main.tex''], Inr (BS # ''input{a}'' @ BS # ''input{b}'')),
      ([''a.tex''], Inr (BS # ''input{c}'')),
      ([''b.tex''], Inr (BS # ''input{c}'')),
      ([''c.tex''], Inr ''x'')]"





section \<open>What a call may do to the state\<close>

text \<open>What a call may do to the state: the main file and the depth counter are as before,
  and the paths announced as inlined are new, pairwise different, and exactly the paths
  added to the visited set.\<close>

definition extends :: "'p inliner \<Rightarrow> 'p inliner \<Rightarrow> bool" where
  "extends st st' =
     (main_file st' = main_file st \<and> current_depth st' = current_depth st \<and>
      (\<exists>new. inlined_paths (printed st') = inlined_paths (printed st) @ new \<and>
             distinct new \<and> set new \<inter> processed_files st = {} \<and>
             processed_files st' = processed_files st \<union> set new))"

section \<open>Auxiliary facts\<close>












lemma scan_trace_scan:
  "(p, st) \<in> set (scan_trace tb i st0) \<Longrightarrow> scan tb i st0 = scan tb p st"
proof (induction tb i st0 rule: scan_trace.induct)
  case (1 tb i st0)
  show ?case
  proof (cases "i < length tb")
    case False
    with "1.prems" scan_trace.simps [of tb i st0] show ?thesis by simp
  next
    case True
    with "1.prems" scan_trace.simps [of tb i st0]
    consider (here) "(p, st) = (i, st0)"
      | (later) "(p, st) \<in> set (scan_trace tb (fst (scan_step tb i st0)) (snd (scan_step tb i st0)))"
      by auto
    then show ?thesis
    proof cases
      case here
      then show ?thesis by simp
    next
      case later
      from "1.IH" [OF True later] True scan.simps [of tb i st0] show ?thesis by simp
    qed
  qed
qed

lemma scan_past_end: "length tb \<le> i \<Longrightarrow> scan tb i st = st"
  using scan.simps [of tb i st] by simp

lemma scan_close_display:
  assumes "p + 1 < length tb" "tb ! p = BS" "tb ! (p + 1) = CHR '']''" "in_display_math st"
  shows "scan_step tb p st = (p + 2, st\<lparr>in_display_math := False, in_math := False\<rparr>)"
  using assms by (simp add: scan_step_def scan_command_def Let_def)

section \<open>Facts about strings and lines\<close>



























section \<open>Facts about \<open>resolve_input_commands\<close>\<close>

lemma extends_refl: "extends st st"
  by (simp add: extends_def)

lemma extends_trans:
  assumes "extends a b" and "extends b c"
  shows "extends a c"
proof -
  from assms(1) obtain n1 where
    1: "inlined_paths (printed b) = inlined_paths (printed a) @ n1" "distinct n1"
       "set n1 \<inter> processed_files a = {}" "processed_files b = processed_files a \<union> set n1"
    and ab: "main_file b = main_file a" "current_depth b = current_depth a"
    by (auto simp: extends_def)
  from assms(2) obtain n2 where
    2: "inlined_paths (printed c) = inlined_paths (printed b) @ n2" "distinct n2"
       "set n2 \<inter> processed_files b = {}" "processed_files c = processed_files b \<union> set n2"
    and bc: "main_file c = main_file b" "current_depth c = current_depth b"
    by (auto simp: extends_def)
  have a: "inlined_paths (printed c) = inlined_paths (printed a) @ (n1 @ n2)"
    using 1(1) 2(1) by simp
  have b: "distinct (n1 @ n2)"
    using 1(2,4) 2(2,3) by auto
  have c: "set (n1 @ n2) \<inter> processed_files a = {}"
    using 1(3,4) 2(3) by auto
  have d: "processed_files c = processed_files a \<union> set (n1 @ n2)"
    using 1(4) 2(4) by auto
  from a b c d ab bc show ?thesis
    unfolding extends_def by metis
qed

lemma inlined_paths_append:
  "inlined_paths (xs @ ys) = inlined_paths xs @ inlined_paths ys"
  by (induction xs rule: inlined_paths.induct) simp_all

lemma extends_print_other:
  "inlined_paths [msg] = [] \<Longrightarrow> extends st (print msg st)"
  by (simp add: extends_def print_def inlined_paths_append)

lemma extends_print_inlining:
  assumes "p \<notin> processed_files st"
  shows "extends st (print (Inlining p b) (st\<lparr>processed_files := insert p (processed_files st)\<rparr>))"
  unfolding extends_def
proof (intro conjI exI [of _ "[p]"])
  show "inlined_paths (printed (print (Inlining p b) (st\<lparr>processed_files := insert p (processed_files st)\<rparr>)))
        = inlined_paths (printed st) @ [p]"
    by (simp add: print_def inlined_paths_append)
qed (use assms in \<open>simp_all add: print_def\<close>)

text \<open>The four outcomes of the callback.\<close>

lemma replace_command_not_found:
  assumes "locate fs (main_file st) (file_arg_of m)
             (path_join fs current_dir (file_arg_of m)) = None"
  shows "replace_command resolve fs content current_dir m st
           = Some (print (WarnNotFound (file_arg_of m)) st, group0 content m)"
  using assms by (simp add: replace_command_def Let_def)

lemma replace_command_circular:
  assumes "locate fs (main_file st) (file_arg_of m)
             (path_join fs current_dir (file_arg_of m)) = Some p"
    and "p \<in> processed_files st"
  shows "replace_command resolve fs content current_dir m st
           = Some (print (WarnCircular p) st,
                   circular_comment (is_in_math_mode content (m_start m)) (group0 content m))"
  using assms by (simp add: replace_command_def Let_def)

lemma replace_command_read_error:
  assumes "locate fs (main_file st) (file_arg_of m)
             (path_join fs current_dir (file_arg_of m)) = Some p"
    and "p \<notin> processed_files st"
    and "read_file fs p = Inl e"
  shows "replace_command resolve fs content current_dir m st
           = Some (print (ErrorProcessing p e)
                     (print (Inlining p (is_in_math_mode content (m_start m)))
                        (st\<lparr>processed_files := insert p (processed_files st)\<rparr>)),
                   error_comment fs (is_in_math_mode content (m_start m)) p e (group0 content m))"
  using assms by (simp add: replace_command_def Let_def)

lemma replace_command_inline:
  assumes "locate fs (main_file st) (file_arg_of m)
             (path_join fs current_dir (file_arg_of m)) = Some p"
    and "p \<notin> processed_files st"
    and "read_file fs p = Inr file_content"
  shows "replace_command resolve fs content current_dir m st
           = (case resolve (if is_in_math_mode content (m_start m)
                            then strip file_content else file_content)
                     (path_parent fs p)
                     (print (Inlining p (is_in_math_mode content (m_start m)))
                        (st\<lparr>processed_files := insert p (processed_files st)\<rparr>)) of
                None \<Rightarrow> None
              | Some (st2, resolved_content) \<Rightarrow>
                  Some (st2, add_inclusion_comments resolved_content (path_name fs p)
                               (is_in_math_mode content (m_start m))))"
  using assms by (simp add: replace_command_def Let_def)

lemma replace_command_cases:
  obtains (not_found) "locate fs (main_file st) (file_arg_of m)
             (path_join fs current_dir (file_arg_of m)) = None"
  | (circular) p where "locate fs (main_file st) (file_arg_of m)
             (path_join fs current_dir (file_arg_of m)) = Some p" "p \<in> processed_files st"
  | (read_error) p e where "locate fs (main_file st) (file_arg_of m)
             (path_join fs current_dir (file_arg_of m)) = Some p" "p \<notin> processed_files st"
             "read_file fs p = Inl e"
  | (inline) p file_content where "locate fs (main_file st) (file_arg_of m)
             (path_join fs current_dir (file_arg_of m)) = Some p" "p \<notin> processed_files st"
             "read_file fs p = Inr file_content"
proof (cases "locate fs (main_file st) (file_arg_of m) (path_join fs current_dir (file_arg_of m))")
  case None
  then show ?thesis by (rule not_found)
next
  case (Some p)
  show ?thesis
  proof (cases "p \<in> processed_files st")
    case True
    with Some show ?thesis by (rule circular)
  next
    case False
    show ?thesis
    proof (cases "read_file fs p")
      case (Inl e)
      with Some False show ?thesis by (rule read_error)
    next
      case (Inr file_content)
      with Some False show ?thesis by (rule inline)
    qed
  qed
qed

lemma replace_command_extends:
  assumes rec: "\<And>c d s s' out. resolve c d s = Some (s', out) \<Longrightarrow> extends s s'"
    and res: "replace_command resolve fs content current_dir m st = Some (st', r)"
  shows "extends st st'"
proof (cases rule: replace_command_cases [of fs st m current_dir])
  case not_found
  from res replace_command_not_found [OF not_found, of resolve content]
  have "st' = print (WarnNotFound (file_arg_of m)) st" by simp
  then show ?thesis by (simp add: extends_print_other)
next
  case (circular p)
  from res replace_command_circular [OF circular, of resolve content]
  have "st' = print (WarnCircular p) st" by simp
  then show ?thesis by (simp add: extends_print_other)
next
  case (read_error p e)
  let ?st1 = "print (Inlining p (is_in_math_mode content (m_start m)))
                (st\<lparr>processed_files := insert p (processed_files st)\<rparr>)"
  from res replace_command_read_error [OF read_error, of resolve content]
  have "st' = print (ErrorProcessing p e) ?st1" by simp
  moreover have "extends st ?st1"
    using read_error(2) by (rule extends_print_inlining)
  moreover have "extends ?st1 (print (ErrorProcessing p e) ?st1)"
    by (simp add: extends_print_other)
  ultimately show ?thesis
    using extends_trans by blast
next
  case (inline p file_content)
  let ?st1 = "print (Inlining p (is_in_math_mode content (m_start m)))
                (st\<lparr>processed_files := insert p (processed_files st)\<rparr>)"
  let ?c = "if is_in_math_mode content (m_start m) then strip file_content else file_content"
  from res replace_command_inline [OF inline, of resolve content]
  obtain out where "resolve ?c (path_parent fs p) ?st1 = Some (st', out)"
    by (auto split: option.splits)
  then have "extends ?st1 st'"
    by (rule rec)
  moreover have "extends st ?st1"
    using inline(2) by (rule extends_print_inlining)
  ultimately show ?thesis
    using extends_trans by blast
qed

lemma sub_all_extends:
  assumes f: "\<And>m s s' r. f m s = Some (s', r) \<Longrightarrow> extends s s'"
  shows "sub_all f ms st = Some (st', rs) \<Longrightarrow> extends st st' \<and> length rs = length ms"
proof (induction ms arbitrary: st st' rs)
  case Nil
  then show ?case by (simp add: extends_refl)
next
  case (Cons m ms)
  from Cons.prems obtain st1 r rs' where
    1: "f m st = Some (st1, r)" and 2: "sub_all f ms st1 = Some (st', rs')" and 3: "rs = r # rs'"
    by (auto split: option.splits)
  from f [OF 1] Cons.IH [OF 2] 3 show ?case
    using extends_trans by auto
qed

lemma extends_depth:
  "extends (st\<lparr>current_depth := d\<rparr>) st' \<Longrightarrow> extends st (st'\<lparr>current_depth := current_depth st\<rparr>)"
  by (simp add: extends_def)

lemma resolve_extends:
  "resolve_input_commands fuel fs content current_dir st = Some (st', out) \<Longrightarrow> extends st st'"
proof (induction fuel arbitrary: content current_dir st st' out)
  case 0
  then show ?case by simp
next
  case (Suc fuel)
  show ?case
  proof (cases "max_depth < current_depth st")
    case True
    with Suc.prems show ?thesis by (simp add: extends_refl)
  next
    case False
    let ?f = "replace_command (resolve_input_commands fuel fs) fs content current_dir"
    let ?st1 = "st\<lparr>current_depth := current_depth st + 1\<rparr>"
    from False Suc.prems obtain st2 rs where
      run: "sub_all ?f (find_directives content 0) ?st1 = Some (st2, rs)"
      and st': "st' = st2\<lparr>current_depth := current_depth st2 - 1\<rparr>"
      by (auto split: option.splits)
    have "\<And>m s s' r. ?f m s = Some (s', r) \<Longrightarrow> extends s s'"
      using Suc.IH by (rule replace_command_extends)
    from sub_all_extends [of ?f, OF this run] have e: "extends ?st1 st2"
      by simp
    then have "current_depth st2 = current_depth st + 1"
      by (simp add: extends_def)
    with extends_depth [OF e] st' show ?thesis
      by simp
  qed
qed











lemma resolve_grows:
  assumes "resolve_input_commands fuel fs content current_dir st = Some (st', out)"
  shows "processed_files st \<subseteq> processed_files st' \<and>
         (\<exists>new. inlined_paths (printed st') = inlined_paths (printed st) @ new \<and>
                distinct new \<and> set new \<inter> processed_files st = {} \<and>
                processed_files st' = processed_files st \<union> set new)"
proof -
  from assms have "extends st st'"
    by (rule resolve_extends)
  then obtain new where
    n: "inlined_paths (printed st') = inlined_paths (printed st) @ new \<and>
        distinct new \<and> set new \<inter> processed_files st = {} \<and>
        processed_files st' = processed_files st \<union> set new"
    unfolding extends_def by blast
  then have "processed_files st \<subseteq> processed_files st'"
    by simp
  with n show ?thesis
    by blast
qed

lemma inline_latex_Some:
  assumes "inline_latex fuel fs st0 = Some (st1, Some written)"
  shows "\<exists>content out. resolve_input_commands fuel fs content (path_parent fs (main_file st0))
           (st0\<lparr>processed_files := insert (main_file st0) (processed_files st0)\<rparr>) = Some (st1, out)"
  using assms unfolding inline_latex_def
  by (simp split: if_splits sum.splits option.splits prod.splits) blast

lemma inline_latex_once:
  assumes run: "inline_latex fuel fs st0 = Some (st1, Some written)"
    and fresh: "printed st0 = []" "processed_files st0 = {}"
  shows "main_file st0 \<in> processed_files st1 \<and>
         distinct (inlined_paths (printed st1)) \<and>
         main_file st0 \<notin> set (inlined_paths (printed st1)) \<and>
         processed_files st1 = insert (main_file st0) (set (inlined_paths (printed st1)))"
proof -
  let ?st = "st0\<lparr>processed_files := insert (main_file st0) (processed_files st0)\<rparr>"
  from inline_latex_Some [OF run] obtain content out where
    "resolve_input_commands fuel fs content (path_parent fs (main_file st0)) ?st = Some (st1, out)"
    by blast
  from resolve_grows [OF this] obtain new where
    1: "inlined_paths (printed st1) = inlined_paths (printed ?st) @ new"
    and 2: "distinct new" and 3: "set new \<inter> processed_files ?st = {}"
    and 4: "processed_files st1 = processed_files ?st \<union> set new"
    by blast
  from 1 fresh have n: "inlined_paths (printed st1) = new"
    by simp
  from 3 have "main_file st0 \<notin> set new"
    by simp
  with n 2 4 fresh show ?thesis
    by simp
qed


section \<open>The math-mode comment writer and blank lines (C1)\<close>

text \<open>
  C1. The claim: wrapping in math mode never inserts a blank line. On the three-line
  content \<open>$$\<close>, \<open>x^2 + y^2 = z^2\<close>, \<open>$$\<close>, which has no blank line, the branch for
  delimiters at the boundary puts an empty line between the end comment and the closing
  \<open>$$\<close>: the end comment carries a line feed of its own and \<open>join\<close> adds a second one.
\<close>

theorem math_wrapper_inserts_blank_line:
  "add_inclusion_comments ''$$\<newline>x^2 + y^2 = z^2\<newline>$$'' ''f.tex'' True
     = ''$$\<newline>% Begin: f.tex\<newline>x^2 + y^2 = z^2\<newline>% End: f.tex\<newline>\<newline>$$''
   \<and> [] \<notin> set (split_nl ''$$\<newline>x^2 + y^2 = z^2\<newline>$$'')
   \<and> [] \<in> set (split_nl
         (add_inclusion_comments ''$$\<newline>x^2 + y^2 = z^2\<newline>$$'' ''f.tex'' True))"
  by code_simp

section \<open>What the blank-line stripper keeps (C2)\<close>



section \<open>Closing display math in the character-level scanner (C3)\<close>

text \<open>
  C3, as the claim states it, fails: scanning \<open>\]\<close> while \<open>in_display_math\<close> holds sets
  \<open>in_math\<close> to false whatever the stack and \<open>in_double_dollar\<close> are. After
  \<open>\begin{align}\[\]\<close> the flag is false although \<open>align\<close> is still on the stack.
\<close>

theorem close_display_clears_in_math_counterexample:
  "\<not> in_math (scan (BS # ''begin{align}'' @ [BS, CHR ''['', BS, CHR '']'']) 0 init_math_state)
   \<and> math_env_stack (scan (BS # ''begin{align}'' @ [BS, CHR ''['', BS, CHR '']'']) 0
        init_math_state) = [''align'']"
  by code_simp

text \<open>
  C3, amended. When the loop meets \<open>\]\<close> at index \<open>p\<close> in a state with
  \<open>in_display_math\<close>, it clears \<open>in_display_math\<close> and \<open>in_math\<close>, both without
  condition; when a recognised environment or a \<open>$$\<close> region is open in that state,
  \<open>is_in_math_mode\<close> just after the token is still true, since the value returned also
  looks at the stack and at \<open>in_double_dollar\<close>.
\<close>

theorem close_display_keeps_math:
  assumes "p + 1 < length text"
    and "text ! p = BS" and "text ! (p + 1) = CHR '']''"
    and "(p, st) \<in> set (scan_trace (take (p + 2) text) 0 init_math_state)"
    and "in_display_math st"
    and "math_env_stack st \<noteq> [] \<or> in_double_dollar st"
  shows "scan (take (p + 2) text) 0 init_math_state
           = st\<lparr>in_display_math := False, in_math := False\<rparr>
         \<and> is_in_math_mode text (p + 2)"
proof -
  define tb where "tb = take (p + 2) text"
  have len: "length tb = p + 2"
    using assms(1) by (simp add: tb_def)
  have c0: "tb ! p = BS" and c1: "tb ! (p + 1) = CHR '']''"
    using assms(2,3) by (simp_all add: tb_def)
  have step: "scan_step tb p st = (p + 2, st\<lparr>in_display_math := False, in_math := False\<rparr>)"
    using len c0 c1 assms(5) by (intro scan_close_display) simp_all
  have "scan tb 0 init_math_state = scan tb p st"
    using assms(4) unfolding tb_def by (rule scan_trace_scan)
  also have "\<dots> = scan tb (p + 2) (st\<lparr>in_display_math := False, in_math := False\<rparr>)"
    using scan.simps [of tb p st] len step by simp
  also have "\<dots> = st\<lparr>in_display_math := False, in_math := False\<rparr>"
    using len by (simp add: scan_past_end)
  finally have fin:
    "scan tb 0 init_math_state = st\<lparr>in_display_math := False, in_math := False\<rparr>" .
  then have "is_in_math_mode text (p + 2)"
    using assms(6) by (auto simp: is_in_math_mode_def tb_def any_math_mode_def)
  with fin show ?thesis
    by (simp add: tb_def)
qed

theorem close_display_keeps_math_witness:
  "is_in_math_mode (BS # ''begin{align}'' @ [BS, CHR ''['', BS, CHR '']'']) 17
   \<and> scan (BS # ''begin{align}'' @ [BS, CHR ''['', BS, CHR '']'']) 0 init_math_state
       = \<lparr>in_math = False, in_display_math = False, in_double_dollar = False,
          math_env_stack = [''align'']\<rparr>"
proof -
  let ?text = "BS # ''begin{align}'' @ [BS, CHR ''['', BS, CHR '']'']"
  let ?st = "\<lparr>in_math = True, in_display_math = True, in_double_dollar = False,
              math_env_stack = [''align'']\<rparr>"
  have h1: "15 + 1 < length ?text" by simp
  have h2: "?text ! 15 = BS" by code_simp
  have h3: "?text ! (15 + 1) = CHR '']''" by code_simp
  have h4: "(15, ?st) \<in> set (scan_trace (take (15 + 2) ?text) 0 init_math_state)"
    by code_simp
  have h5: "in_display_math ?st" by simp
  have h6: "math_env_stack ?st \<noteq> [] \<or> in_double_dollar ?st" by simp
  from close_display_keeps_math [OF h1 h2 h3 h4 h5 h6] show ?thesis
    by simp
qed

section \<open>The two scanners on a closed pair of parentheses (C4)\<close>

text \<open>
  C4. The claim: on well-formed input the line-level state after each line agrees with
  \<open>is_in_math_mode\<close> at the end of that line. On the one-line document \<open>\(x\)\<close> the
  character-level scanner is outside math at the end of the line and the line-level
  state is inside: the line-level pass looks for two backslashes before the closing
  parenthesis. So the blank line after \<open>\(x\)\<close>, which is outside any math region,
  is removed.
\<close>

theorem line_level_misses_closing_paren:
  "is_in_math_mode [BS, CHR ''('', CHR ''x'', BS, CHR '')''] 5 = False
   \<and> any_math_mode (line_step init_math_state [BS, CHR ''('', CHR ''x'', BS, CHR '')'']) = True
   \<and> remove_blank_lines_in_math ([BS, CHR ''('', CHR ''x'', BS, CHR '')''] @ ''\<newline>\<newline>abc'')
       = [BS, CHR ''('', CHR ''x'', BS, CHR '')''] @ ''\<newline>abc''"
  by code_simp

section \<open>Termination and cycles (C5)\<close>




section \<open>Escaped dollars in the character-level scanner (C6)\<close>

text \<open>
  C6. The claim: an escaped dollar never changes the math state, also not in \<open>\$$\<close>.
  The document \<open>$x$\<close> ends outside math. With \<open>\$\<close> inserted in front, \<open>\$$x$\<close>, the
  scanner reads the escaped dollar and the dollar after it as a \<open>$$\<close> token, which opens
  a double-dollar region that is never closed: the document ends inside math.
\<close>

theorem escaped_dollar_opens_double_dollar:
  "is_in_math_mode ''$x$'' 3 = False
   \<and> is_in_math_mode (BS # ''$$x$'') 5 = True
   \<and> in_double_dollar (scan (BS # ''$$'') 0 init_math_state) = True"
  by code_simp

section \<open>Documents without directives and without math (C7)\<close>



section \<open>Directives that fail (C8)\<close>



section \<open>The text-mode comments (C9)\<close>

text \<open>
  C9. The claim: in text mode each of the two comments is a line of its own. For the
  content \<open>x = 1\<close>, which does not end with a line feed, the end comment is appended to
  the content's last line.
\<close>

theorem text_mode_end_comment_merged:
  "add_inclusion_comments ''x = 1'' ''sub.tex'' False
     = ''% --- Begin included file: sub.tex ---\<newline>x = 1% --- End included file: sub.tex ---\<newline>''
   \<and> split_nl (add_inclusion_comments ''x = 1'' ''sub.tex'' False)
     = [''% --- Begin included file: sub.tex ---'',
        ''x = 1% --- End included file: sub.tex ---'', []]"
  by code_simp

section \<open>Each path is inlined once (C10)\<close>

text \<open>
  C10. The visited set only grows: a call of \<open>resolve_input_commands\<close> adds to it
  exactly the paths it announces as inlined, which are pairwise different and were not in
  the set before. A directive that resolves to a path of the set is replaced by the
  circular-inclusion comment, whatever the file holds and whatever the recursive call
  would do: nothing is read, and only the warning is added to the state. In a run of
  \<open>inline_latex\<close> on a fresh inliner the main file is in the set, it is never announced
  as inlined, no path is announced twice, and the set at the end is the main file and
  the announced paths.
\<close>

theorem each_path_inlined_once:
  "(resolve_input_commands fuel fs content current_dir st = Some (st', out) \<longrightarrow>
      processed_files st \<subseteq> processed_files st' \<and>
      (\<exists>new. inlined_paths (printed st') = inlined_paths (printed st) @ new \<and>
             distinct new \<and> set new \<inter> processed_files st = {} \<and>
             processed_files st' = processed_files st \<union> set new))
   \<and> (locate fs (main_file st) (file_arg_of m) (path_join fs current_dir (file_arg_of m))
        = Some p
      \<and> p \<in> processed_files st \<longrightarrow>
      replace_command resolve fs content current_dir m st
        = Some (print (WarnCircular p) st,
                circular_comment (is_in_math_mode content (m_start m)) (group0 content m)))
   \<and> (inline_latex fuel fs s = Some (s', Some written)
      \<and> printed s = [] \<and> processed_files s = {} \<longrightarrow>
      main_file s \<in> processed_files s' \<and>
      distinct (inlined_paths (printed s')) \<and>
      main_file s \<notin> set (inlined_paths (printed s')) \<and>
      processed_files s' = insert (main_file s) (set (inlined_paths (printed s'))))"
proof (intro conjI)
  show "resolve_input_commands fuel fs content current_dir st = Some (st', out) \<longrightarrow>
      processed_files st \<subseteq> processed_files st' \<and>
      (\<exists>new. inlined_paths (printed st') = inlined_paths (printed st) @ new \<and>
             distinct new \<and> set new \<inter> processed_files st = {} \<and>
             processed_files st' = processed_files st \<union> set new)"
  proof (rule impI)
    assume "resolve_input_commands fuel fs content current_dir st = Some (st', out)"
    then show "processed_files st \<subseteq> processed_files st' \<and>
      (\<exists>new. inlined_paths (printed st') = inlined_paths (printed st) @ new \<and>
             distinct new \<and> set new \<inter> processed_files st = {} \<and>
             processed_files st' = processed_files st \<union> set new)"
      by (rule resolve_grows)
  qed
next
  show "locate fs (main_file st) (file_arg_of m) (path_join fs current_dir (file_arg_of m))
        = Some p
      \<and> p \<in> processed_files st \<longrightarrow>
      replace_command resolve fs content current_dir m st
        = Some (print (WarnCircular p) st,
                circular_comment (is_in_math_mode content (m_start m)) (group0 content m))"
  proof (rule impI, elim conjE)
    assume "locate fs (main_file st) (file_arg_of m) (path_join fs current_dir (file_arg_of m))
        = Some p" and "p \<in> processed_files st"
    then show "replace_command resolve fs content current_dir m st
        = Some (print (WarnCircular p) st,
                circular_comment (is_in_math_mode content (m_start m)) (group0 content m))"
      by (rule replace_command_circular)
  qed
next
  show "inline_latex fuel fs s = Some (s', Some written)
      \<and> printed s = [] \<and> processed_files s = {} \<longrightarrow>
      main_file s \<in> processed_files s' \<and>
      distinct (inlined_paths (printed s')) \<and>
      main_file s \<notin> set (inlined_paths (printed s')) \<and>
      processed_files s' = insert (main_file s) (set (inlined_paths (printed s')))"
  proof (rule impI, elim conjE)
    assume "inline_latex fuel fs s = Some (s', Some written)"
      and "printed s = []" and "processed_files s = {}"
    then show "main_file s \<in> processed_files s' \<and>
      distinct (inlined_paths (printed s')) \<and>
      main_file s \<notin> set (inlined_paths (printed s')) \<and>
      processed_files s' = insert (main_file s) (set (inlined_paths (printed s')))"
      by (rule inline_latex_once)
  qed
qed

text \<open>The diamond: \<open>main.tex\<close> includes \<open>a\<close> and \<open>b\<close>, both include \<open>c\<close>. The file \<open>c\<close> is
  inlined inside \<open>a\<close>; inside \<open>b\<close> its directive becomes the circular-inclusion comment.\<close>

theorem each_path_inlined_once_witness:
  "map_option snd (inline_latex 12 diamond_fs (new_inliner (posix ''main.tex'')))
     = Some (Some (''% --- Begin included file: a.tex ---\<newline>''
                   @ ''% --- Begin included file: c.tex ---\<newline>''
                   @ ''x% --- End included file: c.tex ---\<newline>''
                   @ ''% --- End included file: a.tex ---\<newline>''
                   @ ''% --- Begin included file: b.tex ---\<newline>''
                   @ ''\<newline>% Circular include prevented: '' @ BS # ''input{c}\<newline>''
                   @ ''% --- End included file: b.tex ---\<newline>''))
   \<and> map_option (printed \<circ> fst) (inline_latex 12 diamond_fs (new_inliner (posix ''main.tex'')))
     = Some [Inlining (posix ''a.tex'') False, Inlining (posix ''c.tex'') False,
             Inlining (posix ''b.tex'') False, WarnCircular (posix ''c.tex'')]
   \<and> map_option (processed_files \<circ> fst)
        (inline_latex 12 diamond_fs (new_inliner (posix ''main.tex'')))
     = Some (insert (posix ''main.tex'') (set [posix ''a.tex'', posix ''c.tex'', posix ''b.tex'']))
   \<and> distinct [posix ''a.tex'', posix ''c.tex'', posix ''b.tex'']
   \<and> posix ''main.tex'' \<notin> set [posix ''a.tex'', posix ''c.tex'', posix ''b.tex'']
   \<and> replace_command (resolve_input_commands 9 diamond_fs) diamond_fs (BS # ''input{c}'')
         (posix ''.'') \<lparr>m_start = 0, m_end = 9, m_arg = ''c''\<rparr>
         ((new_inliner (posix ''main.tex''))
            \<lparr>processed_files := {posix ''main.tex'', posix ''a.tex'', posix ''c.tex''}\<rparr>)
       = Some (print (WarnCircular (posix ''c.tex''))
                 ((new_inliner (posix ''main.tex''))
                    \<lparr>processed_files := {posix ''main.tex'', posix ''a.tex'', posix ''c.tex''}\<rparr>),
               ''\<newline>% Circular include prevented: '' @ BS # ''input{c}\<newline>'')
   \<and> {posix ''main.tex'', posix ''a.tex''}
       \<subseteq> processed_files (fst (the (resolve_input_commands 11 diamond_fs (BS # ''input{c}'')
           (posix ''.'')
           ((new_inliner (posix ''main.tex''))
              \<lparr>processed_files := {posix ''main.tex'', posix ''a.tex''}\<rparr>))))"
proof -
  let ?init = "new_inliner (posix ''main.tex'')"
  let ?run = "inline_latex 12 diamond_fs ?init"
  let ?written = "''% --- Begin included file: a.tex ---\<newline>''
                   @ ''% --- Begin included file: c.tex ---\<newline>''
                   @ ''x% --- End included file: c.tex ---\<newline>''
                   @ ''% --- End included file: a.tex ---\<newline>''
                   @ ''% --- Begin included file: b.tex ---\<newline>''
                   @ ''\<newline>% Circular include prevented: '' @ BS # ''input{c}\<newline>''
                   @ ''% --- End included file: b.tex ---\<newline>''"
  let ?msgs = "[Inlining (posix ''a.tex'') False, Inlining (posix ''c.tex'') False,
                Inlining (posix ''b.tex'') False, WarnCircular (posix ''c.tex'')]"
  let ?visited = "(new_inliner (posix ''main.tex''))
            \<lparr>processed_files := {posix ''main.tex'', posix ''a.tex'', posix ''c.tex''}\<rparr>"
  let ?m = "\<lparr>m_start = 0, m_end = 9, m_arg = ''c''\<rparr>"
  let ?sb = "(new_inliner (posix ''main.tex''))
               \<lparr>processed_files := {posix ''main.tex'', posix ''a.tex''}\<rparr>"
  let ?inner = "resolve_input_commands 11 diamond_fs (BS # ''input{c}'') (posix ''.'') ?sb"
  have w: "map_option snd ?run = Some (Some ?written)"
    by code_simp
  have msgs: "map_option (printed \<circ> fst) ?run = Some ?msgs"
    by code_simp
  from w obtain st1 where run: "?run = Some (st1, Some ?written)"
    by (cases ?run) auto
  with msgs have printed1: "printed st1 = ?msgs"
    by simp
  have fresh: "printed ?init = [] \<and> processed_files ?init = {}"
    by (simp add: new_inliner_def)
  from run fresh
  have "?run = Some (st1, Some ?written) \<and> printed ?init = [] \<and> processed_files ?init = {}"
    by (rule conjI)
  with each_path_inlined_once
         [where fuel = 12 and fs = diamond_fs and s = ?init and s' = st1
            and written = ?written, THEN conjunct2, THEN conjunct2]
  have once: "main_file ?init \<in> processed_files st1 \<and>
      distinct (inlined_paths (printed st1)) \<and>
      main_file ?init \<notin> set (inlined_paths (printed st1)) \<and>
      processed_files st1 = insert (main_file ?init) (set (inlined_paths (printed st1)))"
    by (rule mp)
  from once printed1 have c4: "distinct [posix ''a.tex'', posix ''c.tex'', posix ''b.tex'']"
    by simp
  from once printed1
  have c5: "posix ''main.tex'' \<notin> set [posix ''a.tex'', posix ''c.tex'', posix ''b.tex'']"
    by (simp add: new_inliner_def)
  from once printed1 have "processed_files st1
      = insert (posix ''main.tex'') (set [posix ''a.tex'', posix ''c.tex'', posix ''b.tex''])"
    by (simp add: new_inliner_def)
  with run have c3: "map_option (processed_files \<circ> fst) ?run
      = Some (insert (posix ''main.tex'') (set [posix ''a.tex'', posix ''c.tex'', posix ''b.tex'']))"
    by simp
  have l: "locate diamond_fs (main_file ?visited) (file_arg_of ?m)
             (path_join diamond_fs (posix ''.'') (file_arg_of ?m)) = Some (posix ''c.tex'')"
    by code_simp
  have v: "posix ''c.tex'' \<in> processed_files ?visited"
    by simp
  from l v
  have "locate diamond_fs (main_file ?visited) (file_arg_of ?m)
             (path_join diamond_fs (posix ''.'') (file_arg_of ?m)) = Some (posix ''c.tex'')
        \<and> posix ''c.tex'' \<in> processed_files ?visited"
    by (rule conjI)
  with each_path_inlined_once
         [where fs = diamond_fs and st = ?visited and m = ?m and current_dir = "posix ''.''"
            and p = "posix ''c.tex''" and content = "BS # ''input{c}''"
            and resolve = "resolve_input_commands 9 diamond_fs",
          THEN conjunct2, THEN conjunct1]
  have "replace_command (resolve_input_commands 9 diamond_fs) diamond_fs (BS # ''input{c}'')
          (posix ''.'') ?m ?visited
        = Some (print (WarnCircular (posix ''c.tex'')) ?visited,
                circular_comment (is_in_math_mode (BS # ''input{c}'') (m_start ?m))
                  (group0 (BS # ''input{c}'') ?m))"
    by (rule mp)
  moreover have "circular_comment (is_in_math_mode (BS # ''input{c}'') (m_start ?m))
                  (group0 (BS # ''input{c}'') ?m)
                 = ''\<newline>% Circular include prevented: '' @ BS # ''input{c}\<newline>''"
    by code_simp
  ultimately have c6: "replace_command (resolve_input_commands 9 diamond_fs) diamond_fs
      (BS # ''input{c}'') (posix ''.'') ?m ?visited
        = Some (print (WarnCircular (posix ''c.tex'')) ?visited,
                ''\<newline>% Circular include prevented: '' @ BS # ''input{c}\<newline>'')"
    by simp
  have "map_option snd ?inner
          = Some ''% --- Begin included file: c.tex ---\<newline>x% --- End included file: c.tex ---\<newline>''"
    by code_simp
  then obtain st' out where inner: "?inner = Some (st', out)"
    by (cases ?inner) auto
  with each_path_inlined_once
         [where fuel = 11 and fs = diamond_fs and st = ?sb and content = "BS # ''input{c}''"
            and current_dir = "posix ''.''" and st' = st' and out = out, THEN conjunct1]
  have "processed_files ?sb \<subseteq> processed_files st' \<and>
      (\<exists>new. inlined_paths (printed st') = inlined_paths (printed ?sb) @ new \<and>
             distinct new \<and> set new \<inter> processed_files ?sb = {} \<and>
             processed_files st' = processed_files ?sb \<union> set new)"
    by (rule mp)
  with inner have c7: "{posix ''main.tex'', posix ''a.tex''} \<subseteq> processed_files (fst (the ?inner))"
    by simp
  from w msgs c3 c4 c5 c6 c7 show ?thesis
    by (intro conjI)
qed

end
